theory Spec2Isabelle
  imports Main "HOL-Library.Sublist"
begin

section \<open>Data model\<close>

text \<open>
  The options object literal handed to the viewer constructor (app.js, lines 1-12): one
  field per key of the literal. \<open>creditContainer: null\<close> is \<open>None\<close>.
\<close>

record viewer_options =
  shouldAnimate :: bool
  animation :: bool
  timeline :: bool
  fullscreenButton :: bool
  homeButton :: bool
  geocoder :: bool
  navigationHelpButton :: bool
  sceneModePicker :: bool
  baseLayerPicker :: bool
  creditContainer :: "string option"

text \<open>The nine pieces of built-in chrome that the options literal addresses.\<close>

datatype ui_feature =
    Animation | Timeline | FullscreenButton | HomeButton | Geocoder
  | NavigationHelpButton | SceneModePicker | BaseLayerPicker | CreditContainer

text \<open>
  A camera pose: the engine's home view, a flight towards it that lasts the given
  duration, or wherever the user has dragged the globe.
\<close>

datatype pose = HomeView | FlyingHome int | UserView

text \<open>
  The promise returned by the loader for a resource path, and the data source it yields
  when the load is fulfilled.
\<close>

datatype promise = LoadPromise string

datatype overlay = DataSource string

text \<open>
  The display session: the object bound to the script's \<open>viewer\<close> constant.
  \<open>creditDisplay\<close> is \<open>viewer.cesiumWidget.creditContainer.style.display\<close>,
  \<open>dataSources\<close> the overlay collection \<open>viewer.dataSources\<close>.
\<close>

record session =
  container :: string
  options :: viewer_options
  creditDisplay :: string
  dataSources :: "overlay list"
  camera :: pose

text \<open>The exceptions a statement of the script can raise.\<close>

datatype error = LookupError string | TypeError | ReferenceError string

text \<open>The calls the script makes on the engine and on the document, in the order made.\<close>

datatype command =
    NewViewer string viewer_options
  | SetCreditDisplay string
  | GetElementById string
  | AddEventListener string string
  | CzmlLoad string
  | DataSourcesAdd promise
  | FlyHome int

text \<open>
  The hosting environment the script starts in: the ids of the elements of the document,
  and the display style the engine gives the credit element of a session constructed with
  given options (whatever effect the declarative option has is a parameter).
\<close>

record environment =
  document :: "string list"
  creditStyle :: "viewer_options \<Rightarrow> string"

text \<open>
  The state the script and the event loop act on: the module-level constant \<open>viewer\<close>
  (\<open>None\<close> while uninitialised), the registered listeners as (element id, event type)
  (the script has one callback only), the loads handed to the overlay collection and not
  yet settled, the rejected loads nobody handled, the exceptions that escaped a listener,
  and the log of calls issued.
\<close>

record world =
  viewer :: "session option"
  listeners :: "(string \<times> string) list"
  pending :: "promise list"
  rejections :: "promise list"
  uncaught :: "error list"
  issued :: "command list"

text \<open>
  What the environment does to the page: a click on an element, a pending load that is
  fulfilled or rejected (named by its position among the pending ones), and the user
  dragging the globe away from the home view.
\<close>

datatype event = Click string | LoadFulfilled nat | LoadRejected nat | UserDrag

section \<open>The external engine and the document\<close>

definition log :: "command \<Rightarrow> world \<Rightarrow> world" where
  "log c w = w\<lparr>issued := issued w @ [c]\<rparr>"

text \<open>
  Modelled from the spec: the constructor of the display session belongs to the external
  engine. It fails with a lookup error when the container id names no element of the
  document (section 4.1), and otherwise yields a session with the options given, an empty
  overlay collection and the camera at the home view.
\<close>

definition Viewer_new :: "environment \<Rightarrow> string \<Rightarrow> viewer_options \<Rightarrow> error + session" where
  "Viewer_new env cid opts =
     (if cid \<in> set (document env)
      then Inr \<lparr>container = cid, options = opts, creditDisplay = creditStyle env opts,
                dataSources = [], camera = HomeView\<rparr>
      else Inl (LookupError cid))"

text \<open>
  Modelled from the spec: a feature of the chrome is shown when its toggle is on; the
  credit element is shown unless its display style is \<open>none\<close>.
\<close>

fun feature_shown :: "session \<Rightarrow> ui_feature \<Rightarrow> bool" where
  "feature_shown v Animation = animation (options v)"
| "feature_shown v Timeline = timeline (options v)"
| "feature_shown v FullscreenButton = fullscreenButton (options v)"
| "feature_shown v HomeButton = homeButton (options v)"
| "feature_shown v Geocoder = geocoder (options v)"
| "feature_shown v NavigationHelpButton = navigationHelpButton (options v)"
| "feature_shown v SceneModePicker = sceneModePicker (options v)"
| "feature_shown v BaseLayerPicker = baseLayerPicker (options v)"
| "feature_shown v CreditContainer = (creditDisplay v \<noteq> ''none'')"

text \<open>
  Modelled from the spec: \<open>document.getElementById\<close> yields the element of that id,
  or null.
\<close>

definition getElementById :: "environment \<Rightarrow> string \<Rightarrow> string option" where
  "getElementById env eid = (if eid \<in> set (document env) then Some eid else None)"

text \<open>Modelled from the spec: registration appends a listener to the element's list.\<close>

definition addEventListener :: "string \<Rightarrow> string \<Rightarrow> world \<Rightarrow> world" where
  "addEventListener el ty w = log (AddEventListener el ty) (w\<lparr>listeners := listeners w @ [(el, ty)]\<rparr>)"

text \<open>
  Modelled from the spec: the asynchronous loader (section 6 (d)) returns at once with a
  promise for the path; nothing is fetched or added yet.
\<close>

definition CzmlDataSource_load :: "string \<Rightarrow> world \<Rightarrow> promise \<times> world" where
  "CzmlDataSource_load path w = (LoadPromise path, log (CzmlLoad path) w)"

text \<open>
  Modelled from the spec: the overlay collection's append (section 6 (c)) accepts the
  promise and returns at once; the overlay is added when the promise is fulfilled.
\<close>

definition dataSources_add :: "promise \<Rightarrow> world \<Rightarrow> world" where
  "dataSources_add p w = log (DataSourcesAdd p) (w\<lparr>pending := pending w @ [p]\<rparr>)"

text \<open>
  Modelled from the spec: the camera's return to the default view (section 6 (e)), with a
  transition duration; duration 0 puts the camera there at once.
\<close>

definition camera_flyHome :: "int \<Rightarrow> world \<Rightarrow> world" where
  "camera_flyHome d w =
     log (FlyHome d)
       (w\<lparr>viewer := map_option (\<lambda>v. v\<lparr>camera := (if d = 0 then HomeView else FlyingHome d)\<rparr>) (viewer w)\<rparr>)"

definition remove_nth :: "nat \<Rightarrow> 'a list \<Rightarrow> 'a list" where
  "remove_nth i xs = take i xs @ drop (Suc i) xs"

text \<open>
  Modelled from the spec: a pending load settles. Fulfilled, its data source is appended
  to the overlay collection; rejected, nothing is added and the rejection stays
  unhandled (section 7, class 2). An index that names no pending load changes nothing.
\<close>

definition settle :: "bool \<Rightarrow> nat \<Rightarrow> world \<Rightarrow> world" where
  "settle ok i w =
     (if i < length (pending w) then
        (case pending w ! i of
           LoadPromise path \<Rightarrow>
             (let w' = w\<lparr>pending := remove_nth i (pending w)\<rparr> in
              if ok
              then w'\<lparr>viewer := map_option (\<lambda>v. v\<lparr>dataSources := dataSources v @ [DataSource path]\<rparr>) (viewer w')\<rparr>
              else w'\<lparr>rejections := rejections w' @ [LoadPromise path]\<rparr>))
      else w)"

section \<open>The script\<close>

definition script_options :: viewer_options where
  "script_options =
     \<lparr>shouldAnimate = True, animation = False, timeline = False, fullscreenButton = False,
      homeButton = False, geocoder = False, navigationHelpButton = False,
      sceneModePicker = False, baseLayerPicker = False, creditContainer = None\<rparr>"

definition empty_world :: world where
  "empty_world =
     \<lparr>viewer = None, listeners = [], pending = [], rejections = [], uncaught = [], issued = []\<rparr>"

text \<open>
  The callback of app.js, lines 18-23. Reading the constant \<open>viewer\<close> before it is
  initialised raises a reference error; otherwise the load is requested, its promise is
  handed to the overlay collection, and the camera is sent home with duration 0. Nothing
  is returned and nothing is caught.
\<close>

definition click_handler :: "world \<Rightarrow> error option \<times> world" where
  "click_handler w =
     (case viewer w of
        None \<Rightarrow> (Some (ReferenceError ''viewer''), w)
      | Some v \<Rightarrow>
          (let (p, w1) = CzmlDataSource_load ''../czml_data/simple.czml'' w;
               w2 = dataSources_add p w1;
               w3 = camera_flyHome 0 w2
           in (None, w3)))"

text \<open>
  The top level of app.js: construct the viewer, hide the credit element, look the button
  up and register the callback. An exception ends the script where it is raised; what was
  done before stays done.
\<close>

definition run_script :: "environment \<Rightarrow> error option \<times> world" where
  "run_script env =
     (let w1 = log (NewViewer ''cesiumContainer'' script_options) empty_world in
      case Viewer_new env ''cesiumContainer'' script_options of
        Inl e \<Rightarrow> (Some e, w1)
      | Inr v \<Rightarrow>
          (let w2 = log (SetCreditDisplay ''none'') (w1\<lparr>viewer := Some (v\<lparr>creditDisplay := ''none''\<rparr>)\<rparr>);
               w3 = log (GetElementById ''satellitesButton'') w2
           in case getElementById env ''satellitesButton'' of
                None \<Rightarrow> (Some TypeError, w3)
              | Some el \<Rightarrow> (None, addEventListener el ''click'' w3)))"

section \<open>The event loop\<close>

text \<open>
  One listener runs: an exception that escapes it is reported by the environment and
  does not stop the loop.
\<close>

definition run_listener :: "world \<Rightarrow> world" where
  "run_listener w =
     (case click_handler w of
        (None, w') \<Rightarrow> w'
      | (Some e, w') \<Rightarrow> w'\<lparr>uncaught := uncaught w' @ [e]\<rparr>)"

definition dispatch :: "string \<Rightarrow> string \<Rightarrow> world \<Rightarrow> world" where
  "dispatch el ty w = fold (\<lambda>_. run_listener) (filter (\<lambda>l. l = (el, ty)) (listeners w)) w"

text \<open>
  The engine's own handling of a drag, outside the script: the camera leaves the home
  view.
\<close>

definition user_drag :: "world \<Rightarrow> world" where
  "user_drag w = w\<lparr>viewer := map_option (\<lambda>v. v\<lparr>camera := UserView\<rparr>) (viewer w)\<rparr>"

fun step :: "event \<Rightarrow> world \<Rightarrow> world" where
  "step (Click el) w = dispatch el ''click'' w"
| "step (LoadFulfilled i) w = settle True i w"
| "step (LoadRejected i) w = settle False i w"
| "step UserDrag w = user_drag w"

definition run :: "event list \<Rightarrow> world \<Rightarrow> world" where
  "run evs w = fold step evs w"

section \<open>Observations\<close>

definition overlays :: "world \<Rightarrow> overlay list" where
  "overlays w = (case viewer w of None \<Rightarrow> [] | Some v \<Rightarrow> dataSources v)"

definition clicks :: "event list \<Rightarrow> nat" where
  "clicks evs = length (filter (\<lambda>e. e = Click ''satellitesButton'') evs)"

fun load_paths :: "command list \<Rightarrow> string list" where
  "load_paths [] = []"
| "load_paths (CzmlLoad p # cs) = p # load_paths cs"
| "load_paths (c # cs) = load_paths cs"

fun flyHome_durations :: "command list \<Rightarrow> int list" where
  "flyHome_durations [] = []"
| "flyHome_durations (FlyHome d # cs) = d # flyHome_durations cs"
| "flyHome_durations (c # cs) = flyHome_durations cs"

fun container_ids :: "command list \<Rightarrow> string list" where
  "container_ids [] = []"
| "container_ids (NewViewer c opts # cs) = c # container_ids cs"
| "container_ids (c # cs) = container_ids cs"

fun element_ids :: "command list \<Rightarrow> string list" where
  "element_ids [] = []"
| "element_ids (GetElementById e # cs) = e # element_ids cs"
| "element_ids (AddEventListener e ty # cs) = e # element_ids cs"
| "element_ids (c # cs) = element_ids cs"

definition czml_path :: string where
  "czml_path = ''../czml_data/simple.czml''"

definition handler_commands :: "command list" where
  "handler_commands = [CzmlLoad czml_path, DataSourcesAdd (LoadPromise czml_path), FlyHome 0]"

text \<open>An environment with both elements present, and one with neither.\<close>

definition env_ok :: environment where
  "env_ok = \<lparr>document = [''cesiumContainer'', ''satellitesButton''], creditStyle = (\<lambda>_. ''block'')\<rparr>"

definition env_bare :: environment where
  "env_bare = \<lparr>document = [], creditStyle = (\<lambda>_. ''block'')\<rparr>"


section \<open>Reachable states\<close>

text \<open>
  The world right after the script has run to its end: the session constructed and its
  credit element hidden, the callback registered on the button, nothing requested yet.
\<close>

definition booted :: world where
  "booted =
     \<lparr>viewer = Some \<lparr>container = ''cesiumContainer'', options = script_options,
                     creditDisplay = ''none'', dataSources = [], camera = HomeView\<rparr>,
      listeners = [(''satellitesButton'', ''click'')], pending = [], rejections = [],
      uncaught = [],
      issued = [NewViewer ''cesiumContainer'' script_options, SetCreditDisplay ''none'',
                GetElementById ''satellitesButton'',
                AddEventListener ''satellitesButton'' ''click'']\<rparr>"

text \<open>
  What every state reached from there keeps: the constant is initialised, the one
  callback is registered on the button, and no exception has escaped a listener.
\<close>

definition ready :: "world \<Rightarrow> bool" where
  "ready w \<longleftrightarrow> viewer w \<noteq> None \<and> listeners w = [(''satellitesButton'', ''click'')] \<and> uncaught w = []"

text \<open>Every load the collection was handed is added, pending or rejected.\<close>

definition backlog :: "world \<Rightarrow> nat" where
  "backlog w = length (overlays w) + length (pending w) + length (rejections w)"

text \<open>The session state other than the overlay collection and the camera pose.\<close>

definition frame :: "session \<Rightarrow> string \<times> viewer_options \<times> string" where
  "frame v = (container v, options v, creditDisplay v)"

text \<open>The same world with another content of the overlay collection.\<close>

definition with_overlays :: "overlay list \<Rightarrow> world \<Rightarrow> world" where
  "with_overlays ds w = w\<lparr>viewer := map_option (\<lambda>v. v\<lparr>dataSources := ds\<rparr>) (viewer w)\<rparr>"

section \<open>Facts about the log and the script\<close>

lemma load_paths_append: "load_paths (xs @ ys) = load_paths xs @ load_paths ys"
  by (induction xs rule: load_paths.induct) simp_all

lemma flyHome_durations_append:
  "flyHome_durations (xs @ ys) = flyHome_durations xs @ flyHome_durations ys"
  by (induction xs rule: flyHome_durations.induct) simp_all

lemma container_ids_append: "container_ids (xs @ ys) = container_ids xs @ container_ids ys"
  by (induction xs rule: container_ids.induct) simp_all

lemma element_ids_append: "element_ids (xs @ ys) = element_ids xs @ element_ids ys"
  by (induction xs rule: element_ids.induct) simp_all

lemma run_script_success:
  assumes "run_script env = (None, w0)"
  shows "w0 = booted"
  using assms
  by (auto simp: run_script_def Viewer_new_def getElementById_def addEventListener_def log_def
      empty_world_def booted_def Let_def split: if_splits)

lemma run_script_present:
  assumes "''cesiumContainer'' \<in> set (document env)" "''satellitesButton'' \<in> set (document env)"
  shows "fst (run_script env) = None"
  using assms
  by (simp add: run_script_def Viewer_new_def getElementById_def Let_def)

lemma run_script_ready: "run_script env = (None, w0) \<Longrightarrow> ready w0"
  by (drule run_script_success) (simp add: ready_def booted_def)

lemma click_handler_Some:
  assumes "viewer w = Some v"
  shows "click_handler w =
    (None, w\<lparr>viewer := Some (v\<lparr>camera := HomeView\<rparr>),
             pending := pending w @ [LoadPromise czml_path],
             issued := issued w @ handler_commands\<rparr>)"
  using assms
  by (simp add: click_handler_def CzmlDataSource_load_def dataSources_add_def camera_flyHome_def
      log_def czml_path_def handler_commands_def)

lemma dispatch_button:
  assumes "ready w" "viewer w = Some v"
  shows "dispatch ''satellitesButton'' ''click'' w =
    w\<lparr>viewer := Some (v\<lparr>camera := HomeView\<rparr>),
             pending := pending w @ [LoadPromise czml_path],
             issued := issued w @ handler_commands\<rparr>"
  using assms by (simp add: ready_def dispatch_def run_listener_def click_handler_Some)

lemma dispatch_other:
  assumes "ready w" "el \<noteq> ''satellitesButton''"
  shows "dispatch el ''click'' w = w"
  using assms by (simp add: ready_def dispatch_def)

lemma issued_user_drag: "issued (user_drag w) = issued w"
  by (simp add: user_drag_def)

lemma overlays_user_drag: "overlays (user_drag w) = overlays w"
  by (cases "viewer w") (simp_all add: user_drag_def overlays_def)

lemma frame_user_drag: "map_option frame (viewer (user_drag w)) = map_option frame (viewer w)"
  by (cases "viewer w") (simp_all add: user_drag_def frame_def)

lemma ready_user_drag: "ready w \<Longrightarrow> ready (user_drag w)"
  by (simp add: ready_def user_drag_def)

lemma backlog_user_drag: "backlog (user_drag w) = backlog w"
  by (simp add: backlog_def overlays_user_drag) (simp add: user_drag_def)

lemma ready_step: "ready w \<Longrightarrow> ready (step e w)"
proof (cases e)
  case (Click el)
  assume r: "ready w"
  then obtain v where v: "viewer w = Some v" by (auto simp: ready_def)
  show ?thesis
  proof (cases "el = ''satellitesButton''")
    case True
    with r v Click show ?thesis by (simp add: dispatch_button ready_def)
  next
    case False
    with r Click show ?thesis by (simp add: dispatch_other)
  qed
next
  case (LoadFulfilled i)
  assume "ready w"
  with LoadFulfilled show ?thesis
    by (auto simp: ready_def settle_def Let_def split: promise.splits)
next
  case (LoadRejected i)
  assume "ready w"
  with LoadRejected show ?thesis
    by (auto simp: ready_def settle_def Let_def split: promise.splits)
next
  case UserDrag
  assume "ready w"
  with UserDrag show ?thesis by (simp add: ready_user_drag)
qed

lemma ready_run: "ready w \<Longrightarrow> ready (run evs w)"
  unfolding run_def by (induction evs arbitrary: w) (simp_all add: ready_step)


lemma length_remove_nth: "i < length xs \<Longrightarrow> length (remove_nth i xs) = length xs - 1"
  by (simp add: remove_nth_def)

lemma settle_out_of_range: "length (pending w) \<le> i \<Longrightarrow> settle ok i w = w"
  by (simp add: settle_def)

lemma settle_fulfilled:
  assumes "i < length (pending w)" "pending w ! i = LoadPromise p"
  shows "settle True i w =
    w\<lparr>pending := remove_nth i (pending w),
      viewer := map_option (\<lambda>v. v\<lparr>dataSources := dataSources v @ [DataSource p]\<rparr>) (viewer w)\<rparr>"
  using assms by (simp add: settle_def)

lemma settle_rejected:
  assumes "i < length (pending w)"
  shows "settle False i w =
    w\<lparr>pending := remove_nth i (pending w), rejections := rejections w @ [pending w ! i]\<rparr>"
  using assms by (simp add: settle_def split: promise.splits)

lemma issued_settle: "issued (settle ok i w) = issued w"
  by (simp add: settle_def Let_def split: promise.splits)

lemma issued_step:
  assumes "ready w"
  shows "issued (step e w) = issued w @ (if e = Click ''satellitesButton'' then handler_commands else [])"
proof (cases e)
  case (Click el)
  from assms obtain v where v: "viewer w = Some v" by (auto simp: ready_def)
  show ?thesis
  proof (cases "el = ''satellitesButton''")
    case True
    with assms v Click show ?thesis by (simp add: dispatch_button)
  next
    case False
    with assms Click show ?thesis by (simp add: dispatch_other)
  qed
qed (simp_all add: issued_settle issued_user_drag)

lemma issued_run:
  "ready w \<Longrightarrow> issued (run evs w) = issued w @ concat (replicate (clicks evs) handler_commands)"
proof (induction evs arbitrary: w)
  case Nil
  show ?case by (simp add: run_def clicks_def)
next
  case (Cons e evs)
  have "run (e # evs) w = run evs (step e w)" by (simp add: run_def)
  moreover have "ready (step e w)" using Cons.prems by (rule ready_step)
  ultimately show ?case
    using Cons.IH [of "step e w"] issued_step [OF Cons.prems, of e]
    by (simp add: clicks_def)
qed

lemma backlog_step:
  assumes "ready w"
  shows "backlog (step e w) = backlog w + (if e = Click ''satellitesButton'' then 1 else 0)"
proof -
  from assms obtain v where v: "viewer w = Some v" by (auto simp: ready_def)
  show ?thesis
  proof (cases e)
    case (Click el)
    show ?thesis
    proof (cases "el = ''satellitesButton''")
      case True
      with assms v Click show ?thesis by (simp add: dispatch_button backlog_def overlays_def)
    next
      case False
      with assms Click show ?thesis by (simp add: dispatch_other)
    qed
  next
    case (LoadFulfilled i)
    show ?thesis
    proof (cases "i < length (pending w)")
      case True
      obtain p where "pending w ! i = LoadPromise p" by (cases "pending w ! i") auto
      with True v LoadFulfilled show ?thesis
        by (simp add: settle_fulfilled backlog_def overlays_def length_remove_nth)
    next
      case False
      with LoadFulfilled show ?thesis by (simp add: settle_out_of_range)
    qed
  next
    case (LoadRejected i)
    show ?thesis
    proof (cases "i < length (pending w)")
      case True
      with v LoadRejected show ?thesis
        by (simp add: settle_rejected backlog_def overlays_def length_remove_nth)
    next
      case False
      with LoadRejected show ?thesis by (simp add: settle_out_of_range)
    qed
  next
    case UserDrag
    then show ?thesis by (simp add: backlog_user_drag)
  qed
qed

lemma backlog_run: "ready w \<Longrightarrow> backlog (run evs w) = backlog w + clicks evs"
proof (induction evs arbitrary: w)
  case Nil
  show ?case by (simp add: run_def clicks_def)
next
  case (Cons e evs)
  have "run (e # evs) w = run evs (step e w)" by (simp add: run_def)
  moreover have "ready (step e w)" using Cons.prems by (rule ready_step)
  ultimately show ?case
    using Cons.IH [of "step e w"] backlog_step [OF Cons.prems, of e]
    by (simp add: clicks_def)
qed

lemma load_paths_handler: "load_paths (concat (replicate n handler_commands)) = replicate n czml_path"
  by (induction n) (simp_all add: handler_commands_def)

lemma flyHome_durations_handler:
  "flyHome_durations (concat (replicate n handler_commands)) = replicate n 0"
  by (induction n) (simp_all add: handler_commands_def)

lemma container_ids_handler: "container_ids (concat (replicate n handler_commands)) = []"
  by (induction n) (simp_all add: handler_commands_def)

lemma element_ids_handler: "element_ids (concat (replicate n handler_commands)) = []"
  by (induction n) (simp_all add: handler_commands_def)


lemma run_Nil: "run [] w = w"
  by (simp add: run_def)

lemma run_Cons: "run (e # evs) w = run evs (step e w)"
  by (simp add: run_def)

lemma run_append: "run (xs @ ys) w = run ys (run xs w)"
  by (simp add: run_def)

lemma run_script_env_ok: "run_script env_ok = (None, booted)"
  by (simp add: run_script_def Viewer_new_def getElementById_def addEventListener_def log_def
      empty_world_def booted_def env_ok_def Let_def)

lemma run_script_no_container:
  assumes "''cesiumContainer'' \<notin> set (document env)"
  shows "run_script env =
    (Some (LookupError ''cesiumContainer''),
     empty_world\<lparr>issued := [NewViewer ''cesiumContainer'' script_options]\<rparr>)"
  using assms by (simp add: run_script_def Viewer_new_def log_def empty_world_def Let_def)

lemma run_script_no_button:
  assumes "''cesiumContainer'' \<in> set (document env)" "''satellitesButton'' \<notin> set (document env)"
  shows "run_script env =
    (Some TypeError,
     booted\<lparr>listeners := [],
            issued := [NewViewer ''cesiumContainer'' script_options, SetCreditDisplay ''none'',
                       GetElementById ''satellitesButton'']\<rparr>)"
  using assms
  by (simp add: run_script_def Viewer_new_def getElementById_def log_def empty_world_def
      booted_def Let_def)

text \<open>Without a listener no event makes the script issue anything.\<close>

lemma step_unregistered:
  assumes "listeners w = []"
  shows "listeners (step e w) = [] \<and> issued (step e w) = issued w"
  using assms
  by (cases e)
    (simp_all add: dispatch_def settle_def user_drag_def Let_def split: promise.splits)

lemma run_unregistered:
  assumes "listeners w = []"
  shows "issued (run evs w) = issued w"
  using assms
proof (induction evs arbitrary: w)
  case Nil
  show ?case by (simp add: run_Nil)
next
  case (Cons e evs)
  from step_unregistered [OF Cons.prems, of e] Cons.IH [of "step e w"]
  show ?case by (simp add: run_Cons)
qed

lemma run_unregistered_listeners:
  assumes "listeners w = []"
  shows "listeners (run evs w) = []"
  using assms
proof (induction evs arbitrary: w)
  case Nil
  show ?case using Nil by (simp add: run_Nil)
next
  case (Cons e evs)
  from step_unregistered [OF Cons.prems, of e] Cons.IH [of "step e w"]
  show ?case by (simp add: run_Cons)
qed

lemma step_idle:
  assumes "viewer w = None" "listeners w = []" "pending w = []"
  shows "step e w = w"
  using assms by (cases e) (simp_all add: dispatch_def settle_def user_drag_def)

lemma run_idle:
  assumes "viewer w = None" "listeners w = []" "pending w = []"
  shows "run evs w = w"
  using assms by (induction evs) (simp_all add: run_Nil run_Cons step_idle)

lemma click_handler_None:
  assumes "viewer w = None"
  shows "click_handler w = (Some (ReferenceError ''viewer''), w)"
  using assms by (simp add: click_handler_def)

text \<open>The session outside the collection and the camera, under any event.\<close>

lemma frame_run_listener: "map_option frame (viewer (run_listener w)) = map_option frame (viewer w)"
  by (cases "viewer w")
    (simp_all add: run_listener_def click_handler_None click_handler_Some frame_def)

lemma overlays_run_listener: "overlays (run_listener w) = overlays w"
  by (cases "viewer w")
    (simp_all add: run_listener_def click_handler_None click_handler_Some overlays_def)

lemma frame_fold_listener:
  "map_option frame (viewer (fold (\<lambda>_. run_listener) ls w)) = map_option frame (viewer w)"
  by (induction ls arbitrary: w) (simp_all add: frame_run_listener)

lemma overlays_fold_listener: "overlays (fold (\<lambda>_. run_listener) ls w) = overlays w"
  by (induction ls arbitrary: w) (simp_all add: overlays_run_listener)

lemma frame_settle: "map_option frame (viewer (settle ok i w)) = map_option frame (viewer w)"
  by (cases "viewer w")
    (simp_all add: settle_def Let_def frame_def split: promise.splits)

lemma overlays_settle: "prefix (overlays w) (overlays (settle ok i w))"
  by (cases "viewer w")
    (simp_all add: settle_def Let_def overlays_def split: promise.splits)

lemma frame_step: "map_option frame (viewer (step e w)) = map_option frame (viewer w)"
  by (cases e) (simp_all add: dispatch_def frame_fold_listener frame_settle frame_user_drag)

lemma prefix_step: "prefix (overlays w) (overlays (step e w))"
  by (cases e)
    (simp_all add: dispatch_def overlays_fold_listener overlays_settle overlays_user_drag)

lemma frame_run: "map_option frame (viewer (run evs w)) = map_option frame (viewer w)"
  by (induction evs arbitrary: w) (simp_all add: run_Nil run_Cons frame_step)

lemma prefix_run: "prefix (overlays w) (overlays (run evs w))"
proof (induction evs arbitrary: w)
  case Nil
  show ?case by (simp add: run_Nil)
next
  case (Cons e evs)
  have "prefix (overlays w) (overlays (step e w))" by (rule prefix_step)
  also have "prefix (overlays (step e w)) (overlays (run evs (step e w)))" by (rule Cons.IH)
  finally show ?case by (simp add: run_Cons)
qed

lemma click_handler_with_overlays:
  "click_handler (with_overlays ds w) = (fst (click_handler w), with_overlays ds (snd (click_handler w)))"
  by (cases "viewer w")
    (simp_all add: click_handler_None click_handler_Some with_overlays_def)

lemma overlays_rejected: "overlays (settle False i w) = overlays w"
  by (simp add: settle_def Let_def overlays_def split: promise.splits)

lemma overlays_step_unfulfilled:
  assumes "\<forall>i. e \<noteq> LoadFulfilled i"
  shows "overlays (step e w) = overlays w"
  using assms
  by (cases e)
    (simp_all add: dispatch_def overlays_fold_listener overlays_rejected overlays_user_drag)

lemma overlays_run_unfulfilled:
  assumes "\<forall>i. LoadFulfilled i \<notin> set evs"
  shows "overlays (run evs w) = overlays w"
  using assms
proof (induction evs arbitrary: w)
  case Nil
  show ?case by (simp add: run_Nil)
next
  case (Cons e evs)
  from Cons.prems have e: "\<forall>i. e \<noteq> LoadFulfilled i" and r: "\<forall>i. LoadFulfilled i \<notin> set evs"
    by auto
  show ?case
    using Cons.IH [OF r, of "step e w"] overlays_step_unfulfilled [OF e, of w]
    by (simp add: run_Cons)
qed

text \<open>Repeated clicks and the loads they leave pending.\<close>

lemma pending_clicks:
  assumes "ready w"
  shows "pending (run (replicate k (Click ''satellitesButton'')) w) =
    pending w @ replicate k (LoadPromise czml_path)"
  using assms
proof (induction k arbitrary: w)
  case 0
  show ?case by (simp add: run_Nil)
next
  case (Suc k)
  from Suc.prems obtain v where v: "viewer w = Some v" by (auto simp: ready_def)
  have r: "ready (step (Click ''satellitesButton'') w)" using Suc.prems by (rule ready_step)
  have "pending (step (Click ''satellitesButton'') w) = pending w @ [LoadPromise czml_path]"
    using Suc.prems v by (simp add: dispatch_button)
  with Suc.IH [OF r] show ?case
    by (simp add: run_Cons replicate_append_same)
qed

lemma overlays_clicks:
  "overlays (run (replicate k (Click el)) w) = overlays w"
  by (rule overlays_run_unfulfilled) auto

lemma fulfil_oldest:
  assumes "viewer w \<noteq> None" "pending w = replicate k (LoadPromise p)"
  shows "overlays (run (replicate k (LoadFulfilled 0)) w) = overlays w @ replicate k (DataSource p)
    \<and> pending (run (replicate k (LoadFulfilled 0)) w) = []"
  using assms
proof (induction k arbitrary: w)
  case 0
  then show ?case by (simp add: run_Nil)
next
  case (Suc k)
  from Suc.prems obtain v where v: "viewer w = Some v" by auto
  let ?w = "step (LoadFulfilled 0) w"
  from Suc.prems(2) v have s: "?w =
    w\<lparr>pending := replicate k (LoadPromise p),
      viewer := Some (v\<lparr>dataSources := dataSources v @ [DataSource p]\<rparr>)\<rparr>"
    by (simp add: settle_fulfilled remove_nth_def)
  then have "viewer ?w \<noteq> None" "pending ?w = replicate k (LoadPromise p)" by simp_all
  from Suc.IH [OF this] s v show ?case
    by (simp add: run_Cons overlays_def replicate_append_same)
qed

section \<open>The outcomes of the script\<close>

lemma Viewer_new_env_bare:
  "Viewer_new env_bare ''cesiumContainer'' script_options = Inl (LookupError ''cesiumContainer'')"
  by (simp add: Viewer_new_def env_bare_def)

lemma run_script_failed:
  assumes "Viewer_new env ''cesiumContainer'' script_options = Inl e"
  shows "run_script env =
    (Some e, empty_world\<lparr>issued := [NewViewer ''cesiumContainer'' script_options]\<rparr>)"
  using assms by (simp add: run_script_def log_def empty_world_def Let_def)

lemma run_script_cases:
  "run_script env = (Some (LookupError ''cesiumContainer''),
       empty_world\<lparr>issued := [NewViewer ''cesiumContainer'' script_options]\<rparr>)
   \<or> run_script env = (Some TypeError,
       booted\<lparr>listeners := [],
              issued := [NewViewer ''cesiumContainer'' script_options, SetCreditDisplay ''none'',
                         GetElementById ''satellitesButton'']\<rparr>)
   \<or> run_script env = (None, booted)"
proof (cases "''cesiumContainer'' \<in> set (document env)")
  case False
  then show ?thesis by (simp add: run_script_no_container)
next
  case c: True
  show ?thesis
  proof (cases "''satellitesButton'' \<in> set (document env)")
    case False
    with c show ?thesis by (simp add: run_script_no_button)
  next
    case True
    with c have "fst (run_script env) = None" by (rule run_script_present)
    then have "run_script env = (None, snd (run_script env))" by (simp add: prod_eq_iff)
    then show ?thesis using run_script_success by metis
  qed
qed

lemma ready_booted: "ready booted"
  by (simp add: ready_def booted_def)

section \<open>The claims\<close>

text \<open>
  Claim C1, as amended. After the script has run, whatever the environment does, the
  number of load requests issued and the number of camera resets issued both equal the
  number N of clicks on the button, and every load requested is either in the overlay
  collection, still pending, or rejected: once all loads have settled the collection holds
  N overlays less the rejected ones, so exactly N when none was rejected. Nothing is
  deduplicated.
\<close>

theorem clicks_loads_resets_overlays:
  assumes "run_script env = (None, w0)" and "w = run evs w0"
  shows "length (load_paths (issued w)) = clicks evs
    \<and> length (flyHome_durations (issued w)) = clicks evs
    \<and> length (overlays w) + length (pending w) + length (rejections w) = clicks evs
    \<and> (pending w = [] \<and> rejections w = [] \<longrightarrow> length (overlays w) = clicks evs)"
proof -
  from assms(1) have w0: "w0 = booted" and r: "ready w0"
    by (rule run_script_success, rule run_script_ready)
  have i: "issued w = issued w0 @ concat (replicate (clicks evs) handler_commands)"
    unfolding assms(2) using r by (rule issued_run)
  have l: "length (load_paths (issued w)) = clicks evs"
    by (simp add: i w0 booted_def load_paths_append load_paths_handler)
  have f: "length (flyHome_durations (issued w)) = clicks evs"
    by (simp add: i w0 booted_def flyHome_durations_append flyHome_durations_handler)
  have "backlog w = backlog w0 + clicks evs"
    unfolding assms(2) using r by (rule backlog_run)
  then have b: "length (overlays w) + length (pending w) + length (rejections w) = clicks evs"
    by (simp add: backlog_def w0 booted_def overlays_def)
  from l f b show ?thesis by auto
qed

text \<open>Two clicks, both loads fulfilled: two requests, two resets, two overlays.\<close>

theorem clicks_loads_resets_overlays_witness:
  "run_script env_ok = (None, booted)
   \<and> clicks [Click ''satellitesButton'', Click ''satellitesButton'', LoadFulfilled 0, LoadFulfilled 0] = 2
   \<and> length (load_paths (issued (run [Click ''satellitesButton'', Click ''satellitesButton'', LoadFulfilled 0, LoadFulfilled 0] booted))) = 2
   \<and> length (flyHome_durations (issued (run [Click ''satellitesButton'', Click ''satellitesButton'', LoadFulfilled 0, LoadFulfilled 0] booted))) = 2
   \<and> pending (run [Click ''satellitesButton'', Click ''satellitesButton'', LoadFulfilled 0, LoadFulfilled 0] booted) = []
   \<and> rejections (run [Click ''satellitesButton'', Click ''satellitesButton'', LoadFulfilled 0, LoadFulfilled 0] booted) = []
   \<and> length (overlays (run [Click ''satellitesButton'', Click ''satellitesButton'', LoadFulfilled 0, LoadFulfilled 0] booted)) = 2"
proof -
  let ?evs = "[Click ''satellitesButton'', Click ''satellitesButton'', LoadFulfilled 0, LoadFulfilled 0]"
  have c: "clicks ?evs = 2" by (simp add: clicks_def)
  have p: "pending (run ?evs booted) = []" and q: "rejections (run ?evs booted) = []"
    by (simp_all add: run_def dispatch_def run_listener_def click_handler_def
        CzmlDataSource_load_def dataSources_add_def camera_flyHome_def log_def settle_def
        remove_nth_def booted_def)
  from clicks_loads_resets_overlays [OF run_script_env_ok refl, of ?evs] c p q run_script_env_ok
  show ?thesis by simp
qed

text \<open>
  The claim as written fails where a load is rejected: one click, its load rejected, all
  loads settled, and the collection is empty.
\<close>

theorem overlay_count_counterexample:
  "run_script env_ok = (None, booted)
   \<and> clicks [Click ''satellitesButton'', LoadRejected 0] = 1
   \<and> length (load_paths (issued (run [Click ''satellitesButton'', LoadRejected 0] booted))) = 1
   \<and> pending (run [Click ''satellitesButton'', LoadRejected 0] booted) = []
   \<and> length (overlays (run [Click ''satellitesButton'', LoadRejected 0] booted)) = 0
   \<and> length (overlays (run [Click ''satellitesButton'', LoadRejected 0] booted)) \<noteq> 1"
  by (simp add: run_script_env_ok clicks_def run_def dispatch_def run_listener_def click_handler_def
        CzmlDataSource_load_def dataSources_add_def camera_flyHome_def log_def settle_def
        remove_nth_def booted_def overlays_def)

text \<open>
  Claim C2. In every state reached after the script has run, one click on the button
  issues the load request, the hand-over to the collection and then the camera reset with
  duration 0; the camera is at the home view when the callback returns, while the load is
  still pending and the collection is as it was.
\<close>

theorem click_resets_camera_at_once:
  assumes "run_script env = (None, w0)" and "w = run evs w0"
  shows "issued (step (Click ''satellitesButton'') w) =
      issued w @ [CzmlLoad czml_path, DataSourcesAdd (LoadPromise czml_path), FlyHome 0]
    \<and> map_option camera (viewer (step (Click ''satellitesButton'') w)) = Some HomeView
    \<and> pending (step (Click ''satellitesButton'') w) = pending w @ [LoadPromise czml_path]
    \<and> overlays (step (Click ''satellitesButton'') w) = overlays w"
proof -
  from assms have r: "ready w" by (simp add: run_script_ready ready_run)
  then obtain v where v: "viewer w = Some v" by (auto simp: ready_def)
  from r v show ?thesis
    by (simp add: dispatch_button handler_commands_def overlays_def)
qed

text \<open>The user has dragged the globe away; the click brings the camera home.\<close>

theorem click_resets_camera_at_once_witness:
  "run_script env_ok = (None, booted)
   \<and> map_option camera (viewer (run [UserDrag] booted)) = Some UserView
   \<and> issued (step (Click ''satellitesButton'') (run [UserDrag] booted)) =
        issued booted @ [CzmlLoad czml_path, DataSourcesAdd (LoadPromise czml_path), FlyHome 0]
   \<and> map_option camera (viewer (step (Click ''satellitesButton'') (run [UserDrag] booted))) = Some HomeView
   \<and> pending (step (Click ''satellitesButton'') (run [UserDrag] booted)) = [LoadPromise czml_path]
   \<and> overlays (step (Click ''satellitesButton'') (run [UserDrag] booted)) = []"
proof -
  have "pending (run [UserDrag] booted) = []" "overlays (run [UserDrag] booted) = []"
    "issued (run [UserDrag] booted) = issued booted"
    "map_option camera (viewer (run [UserDrag] booted)) = Some UserView"
    by (simp_all add: run_def user_drag_def booted_def overlays_def)
  with click_resets_camera_at_once [OF run_script_env_ok refl, of "[UserDrag]"] run_script_env_ok
  show ?thesis by simp
qed

text \<open>
  Claim C3. When the script runs to its end, the session was constructed on
  \<open>cesiumContainer\<close> with exactly the options of the literal: \<open>shouldAnimate\<close> on, the
  eight toggles off and \<open>creditContainer\<close> null; and each of the nine features reads
  hidden.
\<close>

theorem session_configuration:
  assumes "run_script env = (None, w0)"
  shows "\<exists>v. viewer w0 = Some v
    \<and> hd (issued w0) = NewViewer ''cesiumContainer'' (options v)
    \<and> options v =
        \<lparr>shouldAnimate = True, animation = False, timeline = False, fullscreenButton = False,
         homeButton = False, geocoder = False, navigationHelpButton = False,
         sceneModePicker = False, baseLayerPicker = False, creditContainer = None\<rparr>
    \<and> \<not> feature_shown v Animation \<and> \<not> feature_shown v Timeline
    \<and> \<not> feature_shown v FullscreenButton \<and> \<not> feature_shown v HomeButton
    \<and> \<not> feature_shown v Geocoder \<and> \<not> feature_shown v NavigationHelpButton
    \<and> \<not> feature_shown v SceneModePicker \<and> \<not> feature_shown v BaseLayerPicker
    \<and> \<not> feature_shown v CreditContainer"
proof -
  from assms have "w0 = booted" by (rule run_script_success)
  then show ?thesis by (simp add: booted_def script_options_def)
qed

theorem session_configuration_witness:
  "run_script env_ok = (None, booted)
   \<and> (\<exists>v. viewer booted = Some v
    \<and> hd (issued booted) = NewViewer ''cesiumContainer'' (options v)
    \<and> options v =
        \<lparr>shouldAnimate = True, animation = False, timeline = False, fullscreenButton = False,
         homeButton = False, geocoder = False, navigationHelpButton = False,
         sceneModePicker = False, baseLayerPicker = False, creditContainer = None\<rparr>
    \<and> \<not> feature_shown v Animation \<and> \<not> feature_shown v Timeline
    \<and> \<not> feature_shown v FullscreenButton \<and> \<not> feature_shown v HomeButton
    \<and> \<not> feature_shown v Geocoder \<and> \<not> feature_shown v NavigationHelpButton
    \<and> \<not> feature_shown v SceneModePicker \<and> \<not> feature_shown v BaseLayerPicker
    \<and> \<not> feature_shown v CreditContainer)"
  using session_configuration [OF run_script_env_ok] run_script_env_ok by blast

text \<open>
  Claim C4. When the script runs to its end, the credit element's display style is
  \<open>none\<close>, set by the script's own assignment: whatever style the engine gives the
  element for the options passed, the script ends in the same world, and no later event
  changes the style.
\<close>

theorem credit_element_hidden:
  assumes "run_script env = (None, w0)"
  shows "run_script (env\<lparr>creditStyle := style\<rparr>) = (None, w0)
    \<and> map_option creditDisplay (viewer w0) = Some ''none''
    \<and> SetCreditDisplay ''none'' \<in> set (issued w0)
    \<and> map_option creditDisplay (viewer (run evs w0)) = Some ''none''"
proof -
  from assms have w0: "w0 = booted" by (rule run_script_success)
  from assms have d: "''cesiumContainer'' \<in> set (document env)" "''satellitesButton'' \<in> set (document env)"
    by (auto simp: run_script_def Viewer_new_def getElementById_def Let_def split: if_splits)
  then have "fst (run_script (env\<lparr>creditStyle := style\<rparr>)) = None"
    by (simp add: run_script_present)
  then have "run_script (env\<lparr>creditStyle := style\<rparr>) = (None, snd (run_script (env\<lparr>creditStyle := style\<rparr>)))"
    by (simp add: prod_eq_iff)
  then have s: "run_script (env\<lparr>creditStyle := style\<rparr>) = (None, w0)"
    using run_script_success w0 by metis
  have "map_option frame (viewer (run evs w0)) = map_option frame (viewer w0)"
    by (rule frame_run)
  then have k: "map_option creditDisplay (viewer (run evs w0)) = Some ''none''"
    by (cases "viewer (run evs w0)") (auto simp: w0 booted_def frame_def)
  from s k show ?thesis by (simp add: w0 booted_def)
qed

text \<open>An engine that would show the element as a block, and one that shows it inline.\<close>

theorem credit_element_hidden_witness:
  "run_script env_ok = (None, booted)
   \<and> creditStyle env_ok script_options = ''block''
   \<and> run_script (env_ok\<lparr>creditStyle := (\<lambda>_. ''inline'')\<rparr>) = (None, booted)
   \<and> map_option creditDisplay (viewer booted) = Some ''none''
   \<and> SetCreditDisplay ''none'' \<in> set (issued booted)
   \<and> map_option creditDisplay (viewer (run [Click ''satellitesButton''] booted)) = Some ''none''"
  using credit_element_hidden [OF run_script_env_ok, of "\<lambda>_. ''inline''" "[Click ''satellitesButton'']"]
    run_script_env_ok
  by (simp add: env_ok_def)

text \<open>
  Claim C5. In every environment and after every sequence of events, the log of calls the
  script has issued is exactly this: the constructor call on \<open>cesiumContainer\<close>;
  then, when the container exists, the credit assignment and the lookup of
  \<open>satellitesButton\<close>; then, when the button exists too, the registration on it, and
  for each click on the button the load of \<open>../czml_data/simple.czml\<close>, its hand-over
  and the camera reset. So the container id named is always \<open>cesiumContainer\<close>, the
  element looked up and registered on is \<open>satellitesButton\<close>, the listener is on that
  element, and every load request, one per click, is for that one path; each run of the
  callback, from any state, asks for that same path.
\<close>

theorem fixed_identifiers:
  "issued (run evs (snd (run_script env))) =
     (if ''cesiumContainer'' \<in> set (document env)
      then if ''satellitesButton'' \<in> set (document env)
        then [NewViewer ''cesiumContainer'' script_options, SetCreditDisplay ''none'',
              GetElementById ''satellitesButton'',
              AddEventListener ''satellitesButton'' ''click'']
             @ concat (replicate (clicks evs)
                 [CzmlLoad ''../czml_data/simple.czml'',
                  DataSourcesAdd (LoadPromise ''../czml_data/simple.czml''), FlyHome 0])
        else [NewViewer ''cesiumContainer'' script_options, SetCreditDisplay ''none'',
              GetElementById ''satellitesButton'']
      else [NewViewer ''cesiumContainer'' script_options])
   \<and> listeners (run evs (snd (run_script env))) =
     (if ''cesiumContainer'' \<in> set (document env) \<and> ''satellitesButton'' \<in> set (document env)
      then [(''satellitesButton'', ''click'')] else [])
   \<and> container_ids (issued (run evs (snd (run_script env)))) = [''cesiumContainer'']
   \<and> element_ids (issued (run evs (snd (run_script env)))) =
     (if ''cesiumContainer'' \<in> set (document env)
      then if ''satellitesButton'' \<in> set (document env)
        then [''satellitesButton'', ''satellitesButton''] else [''satellitesButton'']
      else [])
   \<and> load_paths (issued (run evs (snd (run_script env)))) =
     (if ''cesiumContainer'' \<in> set (document env) \<and> ''satellitesButton'' \<in> set (document env)
      then replicate (clicks evs) ''../czml_data/simple.czml'' else [])
   \<and> set (element_ids (issued (run evs (snd (run_script env))))) \<subseteq> {''satellitesButton''}
   \<and> set (load_paths (issued (run evs (snd (run_script env))))) \<subseteq> {''../czml_data/simple.czml''}
   \<and> load_paths (issued (snd (click_handler w))) =
        load_paths (issued w) @ (if viewer w = None then [] else [''../czml_data/simple.czml''])"
proof -
  let ?w = "run evs (snd (run_script env))"
  let ?c = "''cesiumContainer'' \<in> set (document env)"
  let ?b = "''satellitesButton'' \<in> set (document env)"
  have h: "load_paths (issued (snd (click_handler w))) =
        load_paths (issued w) @ (if viewer w = None then [] else [''../czml_data/simple.czml''])"
    by (cases "viewer w")
      (simp_all add: click_handler_None click_handler_Some load_paths_append
        handler_commands_def czml_path_def)
  have hc: "handler_commands =
      [CzmlLoad ''../czml_data/simple.czml'',
       DataSourcesAdd (LoadPromise ''../czml_data/simple.czml''), FlyHome 0]"
    by (simp add: handler_commands_def czml_path_def)
  have "issued ?w =
     (if ?c then if ?b
        then [NewViewer ''cesiumContainer'' script_options, SetCreditDisplay ''none'',
              GetElementById ''satellitesButton'',
              AddEventListener ''satellitesButton'' ''click'']
             @ concat (replicate (clicks evs) handler_commands)
        else [NewViewer ''cesiumContainer'' script_options, SetCreditDisplay ''none'',
              GetElementById ''satellitesButton'']
      else [NewViewer ''cesiumContainer'' script_options])
    \<and> listeners ?w = (if ?c \<and> ?b then [(''satellitesButton'', ''click'')] else [])"
  proof (cases ?c)
    case False
    then have r: "run_script env = (Some (LookupError ''cesiumContainer''),
        empty_world\<lparr>issued := [NewViewer ''cesiumContainer'' script_options]\<rparr>)"
      by (rule run_script_no_container)
    have "run evs (snd (run_script env)) = snd (run_script env)"
      by (rule run_idle) (simp_all add: r empty_world_def)
    with False r show ?thesis by (simp add: empty_world_def)
  next
    case c: True
    show ?thesis
    proof (cases ?b)
      case False
      with c have r: "run_script env = (Some TypeError,
          booted\<lparr>listeners := [],
                 issued := [NewViewer ''cesiumContainer'' script_options, SetCreditDisplay ''none'',
                            GetElementById ''satellitesButton'']\<rparr>)"
        by (rule run_script_no_button)
      have l: "listeners (snd (run_script env)) = []" by (simp add: r)
      have "issued ?w = issued (snd (run_script env))" using l by (rule run_unregistered)
      moreover have "listeners ?w = []" using l by (rule run_unregistered_listeners)
      ultimately show ?thesis using c False r by simp
    next
      case True
      with c have "fst (run_script env) = None" by (rule run_script_present)
      then have "run_script env = (None, snd (run_script env))" by (simp add: prod_eq_iff)
      then have r: "run_script env = (None, booted)" using run_script_success by metis
      have "issued (run evs booted) = issued booted @ concat (replicate (clicks evs) handler_commands)"
        using ready_booted by (rule issued_run)
      moreover have "listeners (run evs booted) = [(''satellitesButton'', ''click'')]"
        using ready_run [OF ready_booted, of evs] by (simp add: ready_def)
      ultimately show ?thesis using c True r by (simp add: booted_def)
    qed
  qed
  then have i: "issued ?w =
     (if ?c then if ?b
        then [NewViewer ''cesiumContainer'' script_options, SetCreditDisplay ''none'',
              GetElementById ''satellitesButton'',
              AddEventListener ''satellitesButton'' ''click'']
             @ concat (replicate (clicks evs) handler_commands)
        else [NewViewer ''cesiumContainer'' script_options, SetCreditDisplay ''none'',
              GetElementById ''satellitesButton'']
      else [NewViewer ''cesiumContainer'' script_options])"
    and l: "listeners ?w = (if ?c \<and> ?b then [(''satellitesButton'', ''click'')] else [])"
    by simp_all
  have k: "container_ids (issued ?w) = [''cesiumContainer'']"
    by (simp add: i container_ids_append container_ids_handler)
  have e: "element_ids (issued ?w) =
     (if ?c then if ?b then [''satellitesButton'', ''satellitesButton''] else [''satellitesButton'']
      else [])"
    by (simp add: i element_ids_append element_ids_handler)
  have p: "load_paths (issued ?w) =
     (if ?c \<and> ?b then replicate (clicks evs) ''../czml_data/simple.czml'' else [])"
    by (simp add: i load_paths_append load_paths_handler czml_path_def)
  have es: "set (element_ids (issued ?w)) \<subseteq> {''satellitesButton''}"
    unfolding e by auto
  have ps: "set (load_paths (issued ?w)) \<subseteq> {''../czml_data/simple.czml''}"
    unfolding p by auto
  from i have i': "issued ?w =
     (if ?c then if ?b
        then [NewViewer ''cesiumContainer'' script_options, SetCreditDisplay ''none'',
              GetElementById ''satellitesButton'',
              AddEventListener ''satellitesButton'' ''click'']
             @ concat (replicate (clicks evs)
                 [CzmlLoad ''../czml_data/simple.czml'',
                  DataSourcesAdd (LoadPromise ''../czml_data/simple.czml''), FlyHome 0])
        else [NewViewer ''cesiumContainer'' script_options, SetCreditDisplay ''none'',
              GetElementById ''satellitesButton'']
      else [NewViewer ''cesiumContainer'' script_options])"
    unfolding hc .
  show ?thesis
    apply (intro conjI)
    apply (rule i')
    apply (rule l)
    apply (rule k)
    apply (rule e)
    apply (rule p)
    apply (rule es)
    apply (rule ps)
    apply (rule h)
    done
qed

text \<open>
  Both elements present, one click on the button and one elsewhere: the lookup and the
  registration name the button, and the one load asks for the fixed path.
\<close>

theorem fixed_identifiers_witness:
  "issued (run [Click ''satellitesButton'', Click ''cesiumContainer''] (snd (run_script env_ok))) =
     [NewViewer ''cesiumContainer'' script_options, SetCreditDisplay ''none'',
      GetElementById ''satellitesButton'', AddEventListener ''satellitesButton'' ''click'',
      CzmlLoad ''../czml_data/simple.czml'',
      DataSourcesAdd (LoadPromise ''../czml_data/simple.czml''), FlyHome 0]
   \<and> listeners (run [Click ''satellitesButton'', Click ''cesiumContainer''] (snd (run_script env_ok))) =
     [(''satellitesButton'', ''click'')]
   \<and> container_ids (issued (run [Click ''satellitesButton'', Click ''cesiumContainer''] (snd (run_script env_ok)))) =
     [''cesiumContainer'']
   \<and> element_ids (issued (run [Click ''satellitesButton'', Click ''cesiumContainer''] (snd (run_script env_ok)))) =
     [''satellitesButton'', ''satellitesButton'']
   \<and> load_paths (issued (run [Click ''satellitesButton'', Click ''cesiumContainer''] (snd (run_script env_ok)))) =
     [''../czml_data/simple.czml'']
   \<and> load_paths (issued (snd (click_handler booted))) = [''../czml_data/simple.czml'']"
proof -
  have c: "clicks [Click ''satellitesButton'', Click ''cesiumContainer''] = 1"
    by (simp add: clicks_def)
  have d: "document env_ok = [''cesiumContainer'', ''satellitesButton'']"
    by (simp add: env_ok_def)
  have b: "viewer booted \<noteq> None" "load_paths (issued booted) = []"
    by (simp_all add: booted_def)
  from fixed_identifiers [of "[Click ''satellitesButton'', Click ''cesiumContainer'']" env_ok booted]
    c d b
  show ?thesis by simp
qed

text \<open>
  Claim C6. In every state reached after the script has run, the callback ends without
  an exception and none has escaped a listener. A load that is rejected leaves the
  session and its overlay collection as they were, raises nothing, and stays an
  unhandled rejection: the script has no handler for it. While no load is fulfilled the
  collection stays empty.
\<close>

theorem load_failure_is_silent:
  assumes "run_script env = (None, w0)" and "w = run evs w0"
  shows "fst (click_handler w) = None
    \<and> uncaught w = []
    \<and> viewer (step (LoadRejected i) w) = viewer w \<and> viewer w \<noteq> None
    \<and> overlays (step (LoadRejected i) w) = overlays w
    \<and> uncaught (step (LoadRejected i) w) = []
    \<and> (i < length (pending w) \<longrightarrow>
         rejections (step (LoadRejected i) w) = rejections w @ [pending w ! i])
    \<and> ((\<forall>j. LoadFulfilled j \<notin> set evs) \<longrightarrow> overlays w = [])"
proof -
  from assms have w0: "w0 = booted" and r: "ready w"
    by (simp_all add: run_script_success run_script_ready ready_run)
  then obtain v where v: "viewer w = Some v" by (auto simp: ready_def)
  have a: "fst (click_handler w) = None" using v by (simp add: click_handler_Some)
  have b: "uncaught w = []" "viewer w \<noteq> None" using r by (simp_all add: ready_def)
  have c: "viewer (step (LoadRejected i) w) = viewer w"
    by (simp add: settle_def Let_def split: promise.splits)
  have d: "overlays (step (LoadRejected i) w) = overlays w" by (simp add: overlays_rejected)
  have e: "uncaught (step (LoadRejected i) w) = []"
    using ready_step [OF r, of "LoadRejected i"] by (simp add: ready_def)
  have f: "i < length (pending w) \<longrightarrow>
         rejections (step (LoadRejected i) w) = rejections w @ [pending w ! i]"
    by (simp add: settle_rejected)
  have g: "(\<forall>j. LoadFulfilled j \<notin> set evs) \<longrightarrow> overlays w = []"
    using overlays_run_unfulfilled [of evs w0]
    by (auto simp: assms(2) w0 booted_def overlays_def)
  from a b c d e f g show ?thesis by blast
qed

text \<open>One click whose load is then rejected.\<close>

theorem load_failure_is_silent_witness:
  "run_script env_ok = (None, booted)
   \<and> pending (run [Click ''satellitesButton''] booted) = [LoadPromise czml_path]
   \<and> fst (click_handler (run [Click ''satellitesButton''] booted)) = None
   \<and> uncaught (run [Click ''satellitesButton''] booted) = []
   \<and> viewer (step (LoadRejected 0) (run [Click ''satellitesButton''] booted)) =
       viewer (run [Click ''satellitesButton''] booted)
   \<and> overlays (step (LoadRejected 0) (run [Click ''satellitesButton''] booted)) = []
   \<and> uncaught (step (LoadRejected 0) (run [Click ''satellitesButton''] booted)) = []
   \<and> rejections (step (LoadRejected 0) (run [Click ''satellitesButton''] booted)) = [LoadPromise czml_path]"
proof -
  let ?w = "run [Click ''satellitesButton''] booted"
  have p: "pending ?w = [LoadPromise czml_path]" "rejections ?w = []"
    by (simp_all add: run_def dispatch_def run_listener_def click_handler_def
        CzmlDataSource_load_def dataSources_add_def camera_flyHome_def log_def booted_def
        czml_path_def)
  have n: "\<forall>j. LoadFulfilled j \<notin> set [Click ''satellitesButton'']" by simp
  from load_failure_is_silent [OF run_script_env_ok refl, of "[Click ''satellitesButton'']" 0]
    p n run_script_env_ok
  show ?thesis by simp
qed

text \<open>
  Claim C7. In every state reached after the script has run, k clicks with k at least 2
  do not leave the state one click leaves: every click hands one more load to the
  collection, and when the k loads of k clicks are fulfilled the collection holds k
  overlays of the same resource.
\<close>

theorem clicks_not_idempotent:
  assumes "run_script env = (None, w0)" and "w = run evs w0" and "2 \<le> k"
  shows "run (replicate k (Click ''satellitesButton'')) w \<noteq> run [Click ''satellitesButton''] w
    \<and> pending (run (replicate k (Click ''satellitesButton'')) w) =
        pending w @ replicate k (LoadPromise czml_path)
    \<and> overlays (run (replicate k (Click ''satellitesButton'') @ replicate k (LoadFulfilled 0)) w0) =
        replicate k (DataSource czml_path)"
proof -
  let ?c = "Click ''satellitesButton''"
  from assms have w0: "w0 = booted" and r0: "ready w0" and r: "ready w"
    by (simp_all add: run_script_success run_script_ready ready_run)
  have pk: "pending (run (replicate k ?c) w) = pending w @ replicate k (LoadPromise czml_path)"
    using r by (rule pending_clicks)
  have "pending (run (replicate 1 ?c) w) = pending w @ replicate 1 (LoadPromise czml_path)"
    using r by (rule pending_clicks)
  then have p1: "length (pending (run [?c] w)) = length (pending w) + 1" by simp
  from pk have "length (pending (run (replicate k ?c) w)) = length (pending w) + k" by simp
  with p1 assms(3) have ne: "run (replicate k ?c) w \<noteq> run [?c] w" by auto
  let ?u = "run (replicate k ?c) w0"
  have u1: "viewer ?u \<noteq> None" using ready_run [OF r0] by (simp add: ready_def)
  have u2: "pending ?u = replicate k (LoadPromise czml_path)"
    using pending_clicks [OF r0, of k] by (simp add: w0 booted_def)
  have u3: "overlays ?u = []"
    by (simp add: overlays_clicks) (simp add: w0 booted_def overlays_def)
  from fulfil_oldest [OF u1 u2] u3
  have "overlays (run (replicate k ?c @ replicate k (LoadFulfilled 0)) w0) =
      replicate k (DataSource czml_path)"
    by (simp add: run_append)
  with ne pk show ?thesis by simp
qed

text \<open>Two clicks against one, from the state the script leaves.\<close>

theorem clicks_not_idempotent_witness:
  "run_script env_ok = (None, booted)
   \<and> (2::nat) \<le> 2
   \<and> run (replicate 2 (Click ''satellitesButton'')) (run [] booted) \<noteq>
       run [Click ''satellitesButton''] (run [] booted)
   \<and> pending (run (replicate 2 (Click ''satellitesButton'')) (run [] booted)) =
       [LoadPromise czml_path, LoadPromise czml_path]
   \<and> overlays (run (replicate 2 (Click ''satellitesButton'') @ replicate 2 (LoadFulfilled 0)) booted) =
       [DataSource czml_path, DataSource czml_path]"
proof -
  have p: "pending (run [] booted) = []" by (simp add: run_Nil booted_def)
  have k: "(2::nat) \<le> 2" by simp
  have r: "replicate 2 (LoadPromise czml_path) = [LoadPromise czml_path, LoadPromise czml_path]"
    "replicate 2 (DataSource czml_path) = [DataSource czml_path, DataSource czml_path]"
    by (simp_all add: numeral_2_eq_2)
  from clicks_not_idempotent [OF run_script_env_ok refl k, of "[]"] p r run_script_env_ok
  show ?thesis by simp
qed

text \<open>
  Claim C8. Every event leaves the earlier content of the overlay collection in place, as
  a prefix of the later content, and leaves the session's container, options and credit
  style as they were. The callback neither reads nor writes the collection: it does the
  same whatever the collection holds, and the only field of the session it changes is the
  camera pose. The script's start-up changes nothing of the session the engine
  constructed but the credit style.
\<close>

theorem overlay_collection_append_only:
  "prefix (overlays w) (overlays (step e w))
   \<and> prefix (overlays w) (overlays (run evs w))
   \<and> map_option frame (viewer (step e w)) = map_option frame (viewer w)
   \<and> click_handler (with_overlays ds w) = (fst (click_handler w), with_overlays ds (snd (click_handler w)))
   \<and> (viewer w = Some v \<longrightarrow> viewer (snd (click_handler w)) = Some (v\<lparr>camera := HomeView\<rparr>))
   \<and> (run_script env = (None, w0) \<longrightarrow>
        (\<exists>v0. Viewer_new env ''cesiumContainer'' script_options = Inr v0
           \<and> viewer w0 = Some (v0\<lparr>creditDisplay := ''none''\<rparr>)))"
proof -
  have a: "viewer w = Some v \<longrightarrow> viewer (snd (click_handler w)) = Some (v\<lparr>camera := HomeView\<rparr>)"
    by (simp add: click_handler_Some)
  have b: "run_script env = (None, w0) \<longrightarrow>
        (\<exists>v0. Viewer_new env ''cesiumContainer'' script_options = Inr v0
           \<and> viewer w0 = Some (v0\<lparr>creditDisplay := ''none''\<rparr>))"
    by (auto simp: run_script_def Viewer_new_def getElementById_def addEventListener_def
        log_def empty_world_def Let_def split: if_splits)
  from a b show ?thesis
    by (simp add: prefix_step prefix_run frame_step click_handler_with_overlays)
qed


text \<open>A fulfilled load, a click on a session that already holds an overlay, and the start-up.\<close>

theorem overlay_collection_append_only_witness:
  "prefix (overlays (run [Click ''satellitesButton''] booted))
      (overlays (step (LoadFulfilled 0) (run [Click ''satellitesButton''] booted)))
   \<and> overlays (step (LoadFulfilled 0) (run [Click ''satellitesButton''] booted)) = [DataSource czml_path]
   \<and> map_option frame (viewer (step (LoadFulfilled 0) (run [Click ''satellitesButton''] booted))) =
       Some (''cesiumContainer'', script_options, ''none'')
   \<and> viewer booted = Some \<lparr>container = ''cesiumContainer'', options = script_options,
         creditDisplay = ''none'', dataSources = [], camera = HomeView\<rparr>
   \<and> viewer (snd (click_handler (run [UserDrag] booted))) = viewer booted
   \<and> run_script env_ok = (None, booted)
   \<and> (\<exists>v0. Viewer_new env_ok ''cesiumContainer'' script_options = Inr v0
           \<and> viewer booted = Some (v0\<lparr>creditDisplay := ''none''\<rparr>))"
proof -
  let ?w = "run [Click ''satellitesButton''] booted"
  have o: "overlays (step (LoadFulfilled 0) ?w) = [DataSource czml_path]"
    "map_option frame (viewer ?w) = Some (''cesiumContainer'', script_options, ''none'')"
    by (simp_all add: run_def dispatch_def run_listener_def click_handler_def
        CzmlDataSource_load_def dataSources_add_def camera_flyHome_def log_def settle_def
        remove_nth_def booted_def overlays_def czml_path_def frame_def)
  have d: "viewer (run [UserDrag] booted) =
      Some \<lparr>container = ''cesiumContainer'', options = script_options,
         creditDisplay = ''none'', dataSources = [], camera = UserView\<rparr>"
    "viewer booted = Some \<lparr>container = ''cesiumContainer'', options = script_options,
         creditDisplay = ''none'', dataSources = [], camera = HomeView\<rparr>"
    by (simp_all add: run_def user_drag_def booted_def)
  from overlay_collection_append_only [where w = ?w and e = "LoadFulfilled 0" and env = env_ok
      and ?w0.0 = booted]
    overlay_collection_append_only [where w = "run [UserDrag] booted"
      and v = "\<lparr>container = ''cesiumContainer'', options = script_options,
         creditDisplay = ''none'', dataSources = [], camera = UserView\<rparr>"]
    o d run_script_env_ok
  show ?thesis by simp
qed

text \<open>
  Claim C9. From any two states in which the session exists, the callback issues the same
  three commands with the same arguments, the load of the fixed path, its hand-over to
  the collection and the camera reset with duration 0, and ends without an exception;
  no argument of a command is a value returned by the hand-over or by the camera reset.
\<close>

theorem handler_same_commands:
  assumes "viewer w1 = Some v1" and "viewer w2 = Some v2"
  shows "drop (length (issued w1)) (issued (snd (click_handler w1))) =
      [CzmlLoad ''../czml_data/simple.czml'',
       DataSourcesAdd (LoadPromise ''../czml_data/simple.czml''), FlyHome 0]
    \<and> drop (length (issued w2)) (issued (snd (click_handler w2))) =
      drop (length (issued w1)) (issued (snd (click_handler w1)))
    \<and> fst (click_handler w1) = None \<and> fst (click_handler w2) = None"
  using assms by (simp add: click_handler_Some handler_commands_def czml_path_def)

text \<open>The state the script leaves, and the state after a click and a rejected load.\<close>

theorem handler_same_commands_witness:
  "viewer booted \<noteq> None
   \<and> viewer (run [Click ''satellitesButton'', LoadRejected 0, UserDrag] booted) \<noteq> None
   \<and> booted \<noteq> run [Click ''satellitesButton'', LoadRejected 0, UserDrag] booted
   \<and> drop (length (issued booted)) (issued (snd (click_handler booted))) =
      [CzmlLoad ''../czml_data/simple.czml'',
       DataSourcesAdd (LoadPromise ''../czml_data/simple.czml''), FlyHome 0]
   \<and> drop (length (issued (run [Click ''satellitesButton'', LoadRejected 0, UserDrag] booted)))
        (issued (snd (click_handler (run [Click ''satellitesButton'', LoadRejected 0, UserDrag] booted)))) =
      drop (length (issued booted)) (issued (snd (click_handler booted)))
   \<and> fst (click_handler booted) = None
   \<and> fst (click_handler (run [Click ''satellitesButton'', LoadRejected 0, UserDrag] booted)) = None"
proof -
  let ?w = "run [Click ''satellitesButton'', LoadRejected 0, UserDrag] booted"
  have a: "viewer booted = Some \<lparr>container = ''cesiumContainer'', options = script_options,
         creditDisplay = ''none'', dataSources = [], camera = HomeView\<rparr>"
    by (simp add: booted_def)
  have b: "viewer ?w = Some \<lparr>container = ''cesiumContainer'', options = script_options,
         creditDisplay = ''none'', dataSources = [], camera = UserView\<rparr>"
    by (simp add: run_def dispatch_def run_listener_def click_handler_def
        CzmlDataSource_load_def dataSources_add_def camera_flyHome_def log_def settle_def
        remove_nth_def user_drag_def booted_def)
  from a b have "viewer booted \<noteq> viewer ?w" by simp
  then have c: "booted \<noteq> ?w" by auto
  from handler_same_commands [OF a b] a b c show ?thesis by simp
qed

text \<open>
  Claim C10. When the construction of the session fails, the script ends there with the
  constructor's error: the constant stays uninitialised, the credit style is never
  assigned, the button is never looked up and no listener is registered; no event
  changes the world after that, and no load request or camera reset is ever issued.
\<close>

theorem construction_failure_stops_script:
  assumes "Viewer_new env ''cesiumContainer'' script_options = Inl e"
  shows "fst (run_script env) = Some e
    \<and> viewer (snd (run_script env)) = None
    \<and> listeners (snd (run_script env)) = []
    \<and> issued (snd (run_script env)) = [NewViewer ''cesiumContainer'' script_options]
    \<and> run evs (snd (run_script env)) = snd (run_script env)
    \<and> load_paths (issued (run evs (snd (run_script env)))) = []
    \<and> flyHome_durations (issued (run evs (snd (run_script env)))) = []"
  using assms by (simp add: run_script_failed run_idle empty_world_def)

text \<open>A document without the container, and a click that finds nothing to run.\<close>

theorem construction_failure_stops_script_witness:
  "Viewer_new env_bare ''cesiumContainer'' script_options = Inl (LookupError ''cesiumContainer'')
   \<and> fst (run_script env_bare) = Some (LookupError ''cesiumContainer'')
   \<and> viewer (snd (run_script env_bare)) = None
   \<and> listeners (snd (run_script env_bare)) = []
   \<and> issued (snd (run_script env_bare)) = [NewViewer ''cesiumContainer'' script_options]
   \<and> run [Click ''satellitesButton''] (snd (run_script env_bare)) = snd (run_script env_bare)
   \<and> load_paths (issued (run [Click ''satellitesButton''] (snd (run_script env_bare)))) = []
   \<and> flyHome_durations (issued (run [Click ''satellitesButton''] (snd (run_script env_bare)))) = []"
  using construction_failure_stops_script [OF Viewer_new_env_bare, of "[Click ''satellitesButton'']"]
    Viewer_new_env_bare
  by simp

end
